theory Spec2Isabelle
  imports Complex_Main "HOL-Library.AList"
begin

section \<open>Leveraged buyout model (company\_valuation/lbo.py)\<close>

text \<open>
  A shallow embedding of the LBO engine. Python's \<open>float\<close> is modelled by \<^typ>\<open>real\<close>, so
  the rounding of IEEE doubles is outside the model. The properties proved of the code
  (which branch is taken, which error is raised, order, sign, monotonicity, the repetition
  of one computation) do not rest on a cancellation of rounded values. Where a lemma is an
  exact equality that holds in exact arithmetic only, its text says so, and it is not put
  forward as a property of the doubles that the Python computes. Python's \<open>int\<close> is
  \<^typ>\<open>int\<close>. Exceptions are values of the type \<open>error\<close>, returned as \<open>Inl\<close>.
\<close>

subsection \<open>Data model\<close>

datatype error = IndexError | UnboundLocalError | ZeroDivisionError

record DebtTranche =
  name :: string
  amount :: real
  interest_rate :: real
  amortization_rate :: real
  is_revolver :: bool
  revolver_commitment :: real
  cash_sweep_priority :: int

record LBOProjection =
  year :: int
  ebitda :: real
  capex :: real
  delta_nwc :: real
  tax_rate :: real
  depreciation :: real

text \<open>One row of \<open>yearly_results\<close>; the source builds a dict with exactly these keys.\<close>

record YearRow =
  row_year :: int
  row_ebitda :: real
  row_interest_expense :: real
  row_fcf :: real
  row_mandatory_amortization :: real
  row_cash_sweep :: real
  row_revolver_change :: real
  row_ending_debt :: real

record LBOResult =
  entry_equity :: real
  exit_equity :: real
  moic :: real
  irr :: real
  exit_enterprise_value :: real
  exit_net_debt :: real
  total_debt_paydown :: real
  yearly_results :: "YearRow list"

record SourcesAndUses =
  term_loan :: real
  revolver_draw :: real
  other_debt :: real
  sponsor_equity :: real
  rollover_equity :: real
  equity_purchase :: real
  refinance_debt :: real
  sau_transaction_fees :: real
  sau_financing_fees :: real

record LBOModel =
  entry_ebitda :: real
  entry_multiple :: real
  debt_tranches :: "DebtTranche list"
  projections :: "LBOProjection list"
  exit_multiple :: real
  transaction_fees_pct :: real
  financing_fees_pct :: real
  min_cash :: real

subsection \<open>DebtTranche and SourcesAndUses methods\<close>

definition annual_amortization :: "DebtTranche \<Rightarrow> real \<Rightarrow> real" where
  "annual_amortization t original_amount = original_amount * amortization_rate t"

definition interest_expense :: "DebtTranche \<Rightarrow> real \<Rightarrow> real" where
  "interest_expense t balance = balance * interest_rate t"

definition total_sources :: "SourcesAndUses \<Rightarrow> real" where
  "total_sources s =
     term_loan s + revolver_draw s + other_debt s + sponsor_equity s + rollover_equity s"

definition total_uses :: "SourcesAndUses \<Rightarrow> real" where
  "total_uses s =
     equity_purchase s + refinance_debt s + sau_transaction_fees s + sau_financing_fees s"

definition total_debt :: "SourcesAndUses \<Rightarrow> real" where
  "total_debt s = term_loan s + revolver_draw s + other_debt s"

definition is_balanced :: "SourcesAndUses \<Rightarrow> real \<Rightarrow> bool" where
  "is_balanced s tolerance \<longleftrightarrow> \<bar>total_sources s - total_uses s\<bar> < tolerance"

subsection \<open>LBOModel properties\<close>

definition purchase_price :: "LBOModel \<Rightarrow> real" where
  "purchase_price m = entry_ebitda m * entry_multiple m"

definition total_initial_debt :: "LBOModel \<Rightarrow> real" where
  "total_initial_debt m = sum_list (map amount (debt_tranches m))"

definition transaction_fees :: "LBOModel \<Rightarrow> real" where
  "transaction_fees m = purchase_price m * transaction_fees_pct m"

definition financing_fees :: "LBOModel \<Rightarrow> real" where
  "financing_fees m = total_initial_debt m * financing_fees_pct m"

definition initial_equity :: "LBOModel \<Rightarrow> real" where
  "initial_equity m =
     purchase_price m + transaction_fees m + financing_fees m - total_initial_debt m"

definition sources_and_uses :: "LBOModel \<Rightarrow> SourcesAndUses" where
  "sources_and_uses m =
     \<lparr> term_loan = sum_list (map amount (filter (\<lambda>t. \<not> is_revolver t) (debt_tranches m))),
       revolver_draw = sum_list (map amount (filter is_revolver (debt_tranches m))),
       other_debt = 0,
       sponsor_equity = initial_equity m,
       rollover_equity = 0,
       equity_purchase = purchase_price m,
       refinance_debt = 0,
       sau_transaction_fees = transaction_fees m,
       sau_financing_fees = financing_fees m \<rparr>"

definition calculate_free_cash_flow :: "LBOProjection \<Rightarrow> real \<Rightarrow> real" where
  "calculate_free_cash_flow proj interest =
     (let taxable_income = ebitda proj - depreciation proj - interest;
          taxes = max 0 (taxable_income * tax_rate proj)
      in ebitda proj - interest - taxes - capex proj - delta_nwc proj)"

subsection \<open>The balance dictionaries of \<open>run_model\<close>\<close>

text \<open>
  \<open>debt_balances\<close> and \<open>original_amounts\<close> are Python dicts keyed by tranche name: an
  association list in insertion order. Assigning to a key that is present replaces
  its value in place, assigning to a new key appends it. Every key that \<open>run_model\<close>
  reads was inserted by the comprehension that builds the dict, and no key is ever
  removed, so no lookup raises KeyError: \<open>dict_get\<close> gives 0 for a key that is absent, a
  branch the run never takes (lemmas \<open>init_balances_keys\<close> and \<open>run_years_keys\<close>).
\<close>

type_synonym balances = "(string \<times> real) list"

definition dict_get :: "balances \<Rightarrow> string \<Rightarrow> real" where
  "dict_get d k = (case map_of d k of Some v \<Rightarrow> v | None \<Rightarrow> 0)"

definition dict_set :: "balances \<Rightarrow> string \<Rightarrow> real \<Rightarrow> balances" where
  "dict_set d k v = AList.update k v d"

definition dict_values_sum :: "balances \<Rightarrow> real" where
  "dict_values_sum d = sum_list (map snd d)"

definition dict_keys :: "balances \<Rightarrow> string list" where
  "dict_keys d = map fst d"

definition init_balances :: "DebtTranche list \<Rightarrow> balances" where
  "init_balances ts = foldl (\<lambda>d t. dict_set d (name t) (amount t)) [] ts"

subsection \<open>One projection year\<close>

text \<open>
  The inner interest / free-cash-flow loop. The fuel is \<open>range(max_iterations)\<close>; the
  last argument holds \<open>(total_interest, fcf)\<close> once they are bound.
\<close>

definition total_interest_of :: "DebtTranche list \<Rightarrow> balances \<Rightarrow> real" where
  "total_interest_of ts d = sum_list (map (\<lambda>t. interest_expense t (dict_get d (name t))) ts)"

fun interest_fcf_loop ::
  "nat \<Rightarrow> DebtTranche list \<Rightarrow> balances \<Rightarrow> LBOProjection \<Rightarrow> real \<Rightarrow> real \<Rightarrow>
   (real \<times> real) option \<Rightarrow> (real \<times> real) option" where
  "interest_fcf_loop 0 ts d proj threshold prev_interest bound = bound"
| "interest_fcf_loop (Suc n) ts d proj threshold prev_interest bound =
     (let total_interest = total_interest_of ts d;
          fcf = calculate_free_cash_flow proj total_interest
      in if \<bar>total_interest - prev_interest\<bar> < threshold then Some (total_interest, fcf)
         else interest_fcf_loop n ts d proj threshold total_interest (Some (total_interest, fcf)))"

text \<open>Mandatory amortization: the state is \<open>(debt_balances, mandatory_paydown)\<close>.\<close>

fun mandatory_loop :: "DebtTranche list \<Rightarrow> balances \<Rightarrow> balances \<times> real \<Rightarrow> balances \<times> real" where
  "mandatory_loop [] original_amounts (d, mandatory_paydown) = (d, mandatory_paydown)"
| "mandatory_loop (t # ts) original_amounts (d, mandatory_paydown) =
     (if \<not> is_revolver t then
        (let amort = min (annual_amortization t (dict_get original_amounts (name t)))
                         (dict_get d (name t))
         in mandatory_loop ts original_amounts
              (dict_set d (name t) (dict_get d (name t) - amort), mandatory_paydown + amort))
      else mandatory_loop ts original_amounts (d, mandatory_paydown))"

text \<open>
  Cash sweep. \<open>sorted(..., key=...)\<close> is a stable sort, as \<^const>\<open>sort_key\<close> is. The walk's
  state is \<open>(debt_balances, sweep_paydown, remaining_cash)\<close>.
\<close>

definition sorted_tranches :: "DebtTranche list \<Rightarrow> DebtTranche list" where
  "sorted_tranches ts = sort_key cash_sweep_priority (filter (\<lambda>t. \<not> is_revolver t) ts)"

fun sweep_loop :: "DebtTranche list \<Rightarrow> balances \<times> real \<times> real \<Rightarrow> balances \<times> real \<times> real" where
  "sweep_loop [] (d, sweep_paydown, remaining_cash) = (d, sweep_paydown, remaining_cash)"
| "sweep_loop (t # ts) (d, sweep_paydown, remaining_cash) =
     (if remaining_cash \<le> 0 then (d, sweep_paydown, remaining_cash)
      else
        (let paydown = min remaining_cash (dict_get d (name t))
         in sweep_loop ts
              (dict_set d (name t) (dict_get d (name t) - paydown),
               sweep_paydown + paydown, remaining_cash - paydown)))"

definition cash_sweep :: "DebtTranche list \<Rightarrow> balances \<Rightarrow> real \<Rightarrow> balances \<times> real" where
  "cash_sweep ts d cash_for_sweep =
     (if cash_for_sweep > 0 then
        (case sweep_loop (sorted_tranches ts) (d, 0, cash_for_sweep) of
           (d', sweep_paydown, remaining_cash) \<Rightarrow> (d', sweep_paydown))
      else (d, 0))"

text \<open>Revolver draw / repay: the state is \<open>(debt_balances, revolver_change)\<close>.\<close>

fun revolver_loop ::
  "DebtTranche list \<Rightarrow> real \<Rightarrow> real \<Rightarrow> balances \<times> real \<Rightarrow> balances \<times> real" where
  "revolver_loop [] cash_for_sweep sweep_paydown (d, revolver_change) = (d, revolver_change)"
| "revolver_loop (t # ts) cash_for_sweep sweep_paydown (d, revolver_change) =
     (if is_revolver t then
        (if cash_for_sweep < 0 then
           (let draw = min (- cash_for_sweep) (revolver_commitment t - dict_get d (name t))
            in revolver_loop ts cash_for_sweep sweep_paydown
                 (dict_set d (name t) (dict_get d (name t) + draw), draw))
         else if cash_for_sweep > 0 \<and> sweep_paydown = 0 then
           (let repay = min cash_for_sweep (dict_get d (name t))
            in revolver_loop ts cash_for_sweep sweep_paydown
                 (dict_set d (name t) (dict_get d (name t) - repay), - repay))
         else revolver_loop ts cash_for_sweep sweep_paydown (d, revolver_change))
      else revolver_loop ts cash_for_sweep sweep_paydown (d, revolver_change))"

text \<open>The variables that live across the years of the outer loop.\<close>

record sim_state =
  st_balances :: balances
  st_total_paydown :: real
  st_rows :: "YearRow list"

text \<open>
  The body of \<open>for proj in self.projections\<close>. With \<open>max_iterations \<le> 0\<close> the inner loop
  binds neither \<open>total_interest\<close> nor \<open>fcf\<close>, and reading \<open>fcf\<close> raises. (Both are locals
  of the function and would stay bound from one year to the next; but a run with
  \<open>max_iterations \<le> 0\<close> raises in its first year, and any other run binds them anew in
  every year, so each year starts the loop with none bound.)
\<close>

definition year_step ::
  "DebtTranche list \<Rightarrow> balances \<Rightarrow> int \<Rightarrow> real \<Rightarrow> sim_state \<Rightarrow> LBOProjection \<Rightarrow> error + sim_state"
  where
  "year_step ts original_amounts max_iterations threshold st proj =
     (case interest_fcf_loop (nat max_iterations) ts (st_balances st) proj threshold 0 None of
        None \<Rightarrow> Inl UnboundLocalError
      | Some (total_interest, fcf) \<Rightarrow>
          (case mandatory_loop ts original_amounts (st_balances st, 0) of
             (d1, mandatory_paydown) \<Rightarrow>
               (let cash_for_sweep = fcf - mandatory_paydown in
                (case cash_sweep ts d1 cash_for_sweep of
                   (d2, sweep_paydown) \<Rightarrow>
                     (case revolver_loop ts cash_for_sweep sweep_paydown (d2, 0) of
                        (d3, revolver_change) \<Rightarrow>
                          (let year_paydown = mandatory_paydown + sweep_paydown - revolver_change
                           in Inr \<lparr> st_balances = d3,
                                    st_total_paydown = st_total_paydown st + year_paydown,
                                    st_rows = st_rows st @
                                      [\<lparr> row_year = year proj,
                                         row_ebitda = ebitda proj,
                                         row_interest_expense = total_interest,
                                         row_fcf = fcf,
                                         row_mandatory_amortization = mandatory_paydown,
                                         row_cash_sweep = sweep_paydown,
                                         row_revolver_change = revolver_change,
                                         row_ending_debt = dict_values_sum d3 \<rparr>] \<rparr>))))))"

fun run_years ::
  "DebtTranche list \<Rightarrow> balances \<Rightarrow> int \<Rightarrow> real \<Rightarrow> sim_state \<Rightarrow> LBOProjection list \<Rightarrow>
   error + sim_state" where
  "run_years ts original_amounts max_iterations threshold st [] = Inr st"
| "run_years ts original_amounts max_iterations threshold st (proj # projs) =
     (case year_step ts original_amounts max_iterations threshold st proj of
        Inl e \<Rightarrow> Inl e
      | Inr st' \<Rightarrow> run_years ts original_amounts max_iterations threshold st' projs)"

subsection \<open>\<open>run_model\<close>\<close>

text \<open>
  \<open>self.projections[-1]\<close> raises IndexError on an empty list. \<open>moic ** (1 / years)\<close> is
  evaluated only for \<open>moic > 0\<close> and \<open>years > 0\<close>, where it is the real power.
\<close>

definition run_model :: "LBOModel \<Rightarrow> int \<Rightarrow> real \<Rightarrow> error + LBOResult" where
  "run_model m max_iterations convergence_threshold =
     (let years = length (projections m);
          debt_balances = init_balances (debt_tranches m);
          original_amounts = init_balances (debt_tranches m)
      in case run_years (debt_tranches m) original_amounts max_iterations convergence_threshold
                \<lparr> st_balances = debt_balances, st_total_paydown = 0, st_rows = [] \<rparr>
                (projections m) of
           Inl e \<Rightarrow> Inl e
         | Inr st \<Rightarrow>
             (if projections m = [] then Inl IndexError
              else
                (let final_ebitda = ebitda (last (projections m));
                     exit_ev = final_ebitda * exit_multiple m;
                     exit_debt = dict_values_sum (st_balances st);
                     exit_eq = exit_ev - exit_debt;
                     moic_v = (if initial_equity m > 0 then exit_eq / initial_equity m else 0);
                     irr_v = (if moic_v > 0 \<and> years > 0
                              then moic_v powr (1 / real years) - 1 else 0)
                 in Inr \<lparr> entry_equity = initial_equity m,
                          exit_equity = exit_eq,
                          moic = moic_v,
                          irr = irr_v,
                          exit_enterprise_value = exit_ev,
                          exit_net_debt = exit_debt,
                          total_debt_paydown = st_total_paydown st,
                          yearly_results = st_rows st \<rparr>)))"

text \<open>The state in which \<open>run_model\<close> enters its loop over the years.\<close>

definition start_state :: "LBOModel \<Rightarrow> sim_state" where
  "start_state m =
     \<lparr> st_balances = init_balances (debt_tranches m), st_total_paydown = 0, st_rows = [] \<rparr>"

text \<open>The call \<open>self.run_model()\<close> with its default arguments.\<close>

definition run_model_default :: "LBOModel \<Rightarrow> error + LBOResult" where
  "run_model_default m = run_model m 10 (1 / 100)"

subsection \<open>Calls on a model instance\<close>

text \<open>
  A method call in state-passing form: the outcome and the instance as the call leaves it.
  The body of \<open>run_model\<close> assigns to local variables only (its two dicts, its
  accumulators), never to an attribute of \<open>self\<close> or of a tranche, so the instance comes
  back as it went in.
\<close>

definition run_model_call :: "LBOModel \<Rightarrow> int \<Rightarrow> real \<Rightarrow> (error + LBOResult) \<times> LBOModel" where
  "run_model_call m max_iterations convergence_threshold =
     (run_model m max_iterations convergence_threshold, m)"

subsection \<open>\<open>solve_for_entry_multiple\<close>\<close>

text \<open>
  The rescaling loop of one trial: \<open>t.amount = t.amount * scale / (self.entry_multiple /
  original_multiple)\<close> for each tranche. Python raises ZeroDivisionError on a zero divisor.
\<close>

fun rescale_loop :: "DebtTranche list \<Rightarrow> real \<Rightarrow> real \<Rightarrow> real \<Rightarrow> error + DebtTranche list" where
  "rescale_loop [] scale current_multiple original_multiple = Inr []"
| "rescale_loop (t # ts) scale current_multiple original_multiple =
     (if original_multiple = 0 \<or> current_multiple / original_multiple = 0
      then Inl ZeroDivisionError
      else
        (case rescale_loop ts scale current_multiple original_multiple of
           Inl e \<Rightarrow> Inl e
         | Inr ts' \<Rightarrow>
             Inr (t\<lparr>amount := amount t * scale / (current_multiple / original_multiple)\<rparr> # ts')))"

text \<open>
  The model as one trial hands it to \<open>run_model\<close>: the entry multiple set to the midpoint,
  then \<open>scale\<close> computed, then the tranches rescaled.
\<close>

definition trial_model :: "LBOModel \<Rightarrow> real \<Rightarrow> real \<Rightarrow> error + LBOModel" where
  "trial_model m original_multiple mid =
     (let m1 = m\<lparr>entry_multiple := mid\<rparr> in
      if original_multiple = 0 then Inl ZeroDivisionError
      else
        (let scale = mid / original_multiple in
         case rescale_loop (debt_tranches m1) scale (entry_multiple m1) original_multiple of
           Inl e \<Rightarrow> Inl e
         | Inr ts' \<Rightarrow> Inr (m1\<lparr>debt_tranches := ts'\<rparr>)))"

text \<open>
  The search loop, with \<open>range(50)\<close> as fuel. The result pairs the outcome (\<open>Inr None\<close> is
  Python's \<open>None\<close>) with the instance as the call leaves it. An exception leaves the entry
  multiple at the midpoint; a division by zero is raised before any tranche is assigned.
\<close>

fun solve_loop ::
  "nat \<Rightarrow> LBOModel \<Rightarrow> real \<Rightarrow> real \<Rightarrow> real \<Rightarrow> real \<Rightarrow> real \<Rightarrow> (error + real option) \<times> LBOModel"
  where
  "solve_loop 0 m original_multiple target_irr low high tolerance =
     (Inr None, m\<lparr>entry_multiple := original_multiple\<rparr>)"
| "solve_loop (Suc n) m original_multiple target_irr low high tolerance =
     (let mid = (low + high) / 2 in
      case trial_model m original_multiple mid of
        Inl e \<Rightarrow> (Inl e, m\<lparr>entry_multiple := mid\<rparr>)
      | Inr m2 \<Rightarrow>
          (case run_model_default m2 of
             Inl e \<Rightarrow> (Inl e, m2)
           | Inr result \<Rightarrow>
               if \<bar>irr result - target_irr\<bar> < tolerance
               then (Inr (Some mid), m2\<lparr>entry_multiple := original_multiple\<rparr>)
               else if irr result > target_irr
               then solve_loop n m2 original_multiple target_irr mid high tolerance
               else solve_loop n m2 original_multiple target_irr low mid tolerance))"

definition solve_for_entry_multiple ::
  "LBOModel \<Rightarrow> real \<Rightarrow> real \<Rightarrow> real \<Rightarrow> real \<Rightarrow> (error + real option) \<times> LBOModel" where
  "solve_for_entry_multiple m target_irr min_multiple max_multiple tolerance =
     solve_loop 50 m (entry_multiple m) target_irr min_multiple max_multiple tolerance"

subsection \<open>Predicates of the properties\<close>

definition nonneg_balances :: "balances \<Rightarrow> bool" where
  "nonneg_balances d \<longleftrightarrow> (\<forall>kv \<in> set d. 0 \<le> snd kv)"

definition non_revolvers :: "DebtTranche list \<Rightarrow> DebtTranche list" where
  "non_revolvers ts = filter (\<lambda>t. \<not> is_revolver t) ts"

subsection \<open>The single pass of the specification\<close>

text \<open>
  The specification's reading of the inner loop: one pass, in which total interest is the
  sum over the tranches of start-of-year balance times interest rate, and free cash flow is
  \<open>EBITDA - interest - max(0, (EBITDA - depreciation - interest) * tax_rate) - capex - dNWC\<close>.
\<close>

definition spec_total_interest :: "DebtTranche list \<Rightarrow> balances \<Rightarrow> real" where
  "spec_total_interest ts d = (\<Sum>t\<leftarrow>ts. dict_get d (name t) * interest_rate t)"

definition spec_fcf :: "LBOProjection \<Rightarrow> real \<Rightarrow> real" where
  "spec_fcf p i =
     ebitda p - i - max 0 ((ebitda p - depreciation p - i) * tax_rate p) - capex p - delta_nwc p"

subsection \<open>Example inputs\<close>

text \<open>
  The single-tranche deal of the test suite's fixture, cut to one projection year:
  600 of unitranche debt at 8 percent with 1 percent amortization, bought at 10 times an
  EBITDA of 100.
\<close>

definition unitranche :: DebtTranche where
  "unitranche = \<lparr> name = ''Unitranche'', amount = 600, interest_rate = 8 / 100,
     amortization_rate = 1 / 100, is_revolver = False, revolver_commitment = 0,
     cash_sweep_priority = 1 \<rparr>"

definition year_one :: LBOProjection where
  "year_one = \<lparr> year = 1, ebitda = 105, capex = 63 / 4, delta_nwc = 0, tax_rate = 1 / 4,
     depreciation = 21 / 2 \<rparr>"

definition example_model :: LBOModel where
  "example_model = \<lparr> entry_ebitda = 100, entry_multiple = 10, debt_tranches = [unitranche],
     projections = [year_one], exit_multiple = 10, transaction_fees_pct = 2 / 100,
     financing_fees_pct = 2 / 100, min_cash = 0 \<rparr>"

text \<open>The two-tranche structure of the test suite: Senior before Mezz in the sweep.\<close>

definition senior :: DebtTranche where
  "senior = \<lparr> name = ''Senior'', amount = 400, interest_rate = 7 / 100,
     amortization_rate = 1 / 100, is_revolver = False, revolver_commitment = 0,
     cash_sweep_priority = 1 \<rparr>"

definition mezz :: DebtTranche where
  "mezz = \<lparr> name = ''Mezz'', amount = 150, interest_rate = 12 / 100,
     amortization_rate = 0, is_revolver = False, revolver_commitment = 0,
     cash_sweep_priority = 2 \<rparr>"

definition two_tranche_model :: LBOModel where
  "two_tranche_model = example_model\<lparr>debt_tranches := [senior, mezz]\<rparr>"

text \<open>An undrawn revolver with a commitment of 100, and a year that burns cash.\<close>

definition revolver :: DebtTranche where
  "revolver = \<lparr> name = ''Revolver'', amount = 0, interest_rate = 7 / 100,
     amortization_rate = 0, is_revolver = True, revolver_commitment = 100,
     cash_sweep_priority = 1 \<rparr>"

definition cash_burn_year :: LBOProjection where
  "cash_burn_year = \<lparr> year = 1, ebitda = 10, capex = 20, delta_nwc = 0, tax_rate = 1 / 4,
     depreciation = 0 \<rparr>"

definition revolver_model :: LBOModel where
  "revolver_model = example_model\<lparr>debt_tranches := [unitranche, revolver],
     projections := [cash_burn_year]\<rparr>"

definition two_revolver_model :: LBOModel where
  "two_revolver_model = example_model\<lparr>debt_tranches := [revolver, revolver\<lparr>name := ''Revolver B''\<rparr>],
     projections := [cash_burn_year]\<rparr>"

definition same_name_model :: LBOModel where
  "same_name_model = example_model\<lparr>debt_tranches := [unitranche, unitranche]\<rparr>"

text \<open>The example deal after a year that burns cash, sold at one times EBITDA.\<close>

definition underwater_model :: LBOModel where
  "underwater_model = example_model\<lparr>projections := [cash_burn_year], exit_multiple := 1\<rparr>"

text \<open>
  Two more exits of the example deal: a year with an EBITDA of 60, sold at 9 times (exit
  value just below the debt), and a year with an EBITDA of -10, sold at one times.
\<close>

definition thin_model :: LBOModel where
  "thin_model = example_model\<lparr>projections := [cash_burn_year\<lparr>ebitda := 60\<rparr>], exit_multiple := 9\<rparr>"

definition loss_model :: LBOModel where
  "loss_model = example_model\<lparr>projections := [cash_burn_year\<lparr>ebitda := - 10\<rparr>], exit_multiple := 1\<rparr>"

section \<open>Properties\<close>

subsection \<open>Evaluation and helper lemmas\<close>

lemmas model_defs =
  purchase_price_def total_initial_debt_def transaction_fees_def financing_fees_def
  initial_equity_def

lemmas step_defs =
  init_balances_def dict_set_def dict_get_def dict_values_sum_def total_interest_of_def
  interest_expense_def annual_amortization_def calculate_free_cash_flow_def cash_sweep_def
  sorted_tranches_def year_step_def Let_def

lemmas example_defs =
  example_model_def unitranche_def year_one_def senior_def mezz_def two_tranche_model_def
  revolver_def cash_burn_year_def revolver_model_def two_revolver_model_def same_name_model_def

lemmas run_defs =
  run_model_def run_model_default_def start_state_def model_defs step_defs eval_nat_numeral

lemma run_example_model:
  "run_model example_model 10 (1 / 100) =
   Inr \<lparr>entry_equity = 432, exit_equity = 3837 / 8, moic = 1279 / 1152,
        irr = 127 / 1152, exit_enterprise_value = 1050,
        exit_net_debt = 4563 / 8, total_debt_paydown = 237 / 8,
        yearly_results =
          [\<lparr>row_year = 1, row_ebitda = 105, row_interest_expense = 48,
              row_fcf = 237 / 8, row_mandatory_amortization = 6,
              row_cash_sweep = 189 / 8, row_revolver_change = 0,
              row_ending_debt = 4563 / 8\<rparr>]\<rparr>"
  by (simp add: run_defs example_defs)

lemma run_revolver_model:
  "run_model revolver_model 10 (1 / 100) =
   Inr \<lparr>entry_equity = 432, exit_equity = - 558, moic = - (31 / 24), irr = 0,
        exit_enterprise_value = 100, exit_net_debt = 658,
        total_debt_paydown = - 58,
        yearly_results =
          [\<lparr>row_year = 1, row_ebitda = 10, row_interest_expense = 48,
              row_fcf = - 58, row_mandatory_amortization = 6,
              row_cash_sweep = 0, row_revolver_change = 64,
              row_ending_debt = 658\<rparr>]\<rparr>"
  by (simp add: run_defs example_defs)

lemma run_model_InrD:
  assumes "run_model m mi thr = Inr r"
  obtains st where
    "run_years (debt_tranches m) (init_balances (debt_tranches m)) mi thr (start_state m)
       (projections m) = Inr st"
    "projections m \<noteq> []"
    "exit_net_debt r = dict_values_sum (st_balances st)"
    "total_debt_paydown r = st_total_paydown st"
    "yearly_results r = st_rows st"
  using assms
  by (auto simp: run_model_def start_state_def Let_def split: sum.splits if_splits)

lemma dict_get_set: "dict_get (dict_set d k v) k' = (if k' = k then v else dict_get d k')"
  by (simp add: dict_get_def dict_set_def update_conv')

lemma sum_list_filter_split:
  "sum_list (map f (filter (\<lambda>t. \<not> P t) xs)) + sum_list (map f (filter P xs)) =
   (sum_list (map f xs) :: real)"
  by (induction xs) auto

lemma interest_fcf_loop_bound:
  "interest_fcf_loop n ts d proj threshold prev
     (Some (total_interest_of ts d, calculate_free_cash_flow proj (total_interest_of ts d))) =
   Some (total_interest_of ts d, calculate_free_cash_flow proj (total_interest_of ts d))"
  by (induction n arbitrary: prev) (simp_all add: Let_def)

lemma interest_fcf_loop_Suc:
  "interest_fcf_loop (Suc n) ts d proj threshold prev bound =
     Some (total_interest_of ts d, calculate_free_cash_flow proj (total_interest_of ts d))"
  by (simp add: Let_def interest_fcf_loop_bound)

lemma interest_fcf_loop_pos:
  assumes "1 \<le> max_iterations"
  shows "interest_fcf_loop (nat max_iterations) ts d proj threshold prev bound =
     Some (total_interest_of ts d, calculate_free_cash_flow proj (total_interest_of ts d))"
proof -
  from assms obtain n where "nat max_iterations = Suc n"
    by (cases "nat max_iterations") auto
  then show ?thesis by (simp only: interest_fcf_loop_Suc)
qed

lemma total_interest_of_spec: "total_interest_of ts d = spec_total_interest ts d"
  by (simp add: total_interest_of_def spec_total_interest_def interest_expense_def)

lemma calculate_free_cash_flow_spec: "calculate_free_cash_flow p i = spec_fcf p i"
  by (simp add: calculate_free_cash_flow_def spec_fcf_def Let_def)

lemma year_step_returns:
  "1 \<le> mi \<Longrightarrow> \<exists>st'. year_step ts orig mi thr st proj = Inr st'"
  using interest_fcf_loop_pos [of mi ts "st_balances st" proj thr 0 None]
  by (simp add: year_step_def Let_def split: prod.split)

lemma run_years_returns:
  "1 \<le> mi \<Longrightarrow> \<exists>st'. run_years ts orig mi thr st projs = Inr st'"
proof (induction projs arbitrary: st)
  case Nil
  then show ?case by simp
next
  case (Cons p projs)
  from year_step_returns [OF Cons.prems, of ts orig thr st p]
  obtain st1 where "year_step ts orig mi thr st p = Inr st1" by blast
  with Cons.IH [OF Cons.prems, of st1] show ?case by simp
qed

lemma run_model_returns:
  assumes "1 \<le> mi" "projections m \<noteq> []"
  shows "\<exists>r. run_model m mi thr = Inr r"
  using run_years_returns [OF assms(1), of "debt_tranches m" "init_balances (debt_tranches m)" thr
      "start_state m" "projections m"] assms(2)
  by (auto simp: run_model_def start_state_def Let_def)

subsection \<open>No lookup misses a key\<close>

lemma dict_keys_set: "k \<in> set (dict_keys d) \<Longrightarrow> dict_keys (dict_set d k v) = dict_keys d"
  by (simp add: dict_keys_def dict_set_def update_keys)

lemma init_balances_keys_aux:
  "set (dict_keys (foldl (\<lambda>d t. dict_set d (name t) (amount t)) d ts)) =
   set (dict_keys d) \<union> name ` set ts"
  by (induction ts arbitrary: d) (auto simp: dict_keys_def dict_set_def dom_update)

lemma init_balances_keys: "set (dict_keys (init_balances ts)) = name ` set ts"
  using init_balances_keys_aux [of "[]" ts] by (simp add: init_balances_def dict_keys_def)

lemma dict_get_present:
  "k \<in> set (dict_keys d) \<Longrightarrow> \<exists>v. map_of d k = Some v \<and> dict_get d k = v"
  by (cases "map_of d k") (auto simp: dict_keys_def dict_get_def map_of_eq_None_iff)

lemma mandatory_loop_keys:
  "name ` set ts \<subseteq> set (dict_keys d) \<Longrightarrow>
   dict_keys (fst (mandatory_loop ts orig (d, mp))) = dict_keys d"
  by (induction ts arbitrary: d mp) (simp_all add: Let_def dict_keys_set)

lemma sweep_loop_keys:
  "name ` set ts \<subseteq> set (dict_keys d) \<Longrightarrow>
   dict_keys (fst (sweep_loop ts (d, sp, rem))) = dict_keys d"
  by (induction ts arbitrary: d sp rem) (simp_all add: Let_def dict_keys_set)

lemma cash_sweep_keys:
  assumes "name ` set ts \<subseteq> set (dict_keys d)"
  shows "dict_keys (fst (cash_sweep ts d cash)) = dict_keys d"
proof -
  have "name ` set (sorted_tranches ts) \<subseteq> set (dict_keys d)"
    using assms by (auto simp: sorted_tranches_def)
  from sweep_loop_keys [OF this, of 0 cash] show ?thesis
    by (auto simp: cash_sweep_def split: prod.split)
qed

lemma revolver_loop_keys:
  "name ` set ts \<subseteq> set (dict_keys d) \<Longrightarrow>
   dict_keys (fst (revolver_loop ts cash sp (d, rc))) = dict_keys d"
  by (induction ts arbitrary: d rc) (auto simp: Let_def dict_keys_set)

lemma year_step_keys:
  assumes "name ` set ts \<subseteq> set (dict_keys (st_balances st))"
    and "year_step ts orig mi thr st proj = Inr st'"
  shows "dict_keys (st_balances st') = dict_keys (st_balances st)"
proof -
  obtain ti fcf where "interest_fcf_loop (nat mi) ts (st_balances st) proj thr 0 None = Some (ti, fcf)"
    using assms(2) by (auto simp: year_step_def split: option.splits)
  moreover obtain d1 mp where m: "mandatory_loop ts orig (st_balances st, 0) = (d1, mp)"
    by (cases "mandatory_loop ts orig (st_balances st, 0)")
  moreover obtain d2 sp where s: "cash_sweep ts d1 (fcf - mp) = (d2, sp)"
    by (cases "cash_sweep ts d1 (fcf - mp)")
  moreover obtain d3 rc where r: "revolver_loop ts (fcf - mp) sp (d2, 0) = (d3, rc)"
    by (cases "revolver_loop ts (fcf - mp) sp (d2, 0)")
  ultimately have "st_balances st' = d3"
    using assms(2) by (auto simp: year_step_def Let_def)
  moreover have k1: "dict_keys d1 = dict_keys (st_balances st)"
    using mandatory_loop_keys [OF assms(1), of orig 0] m by simp
  moreover have k2: "dict_keys d2 = dict_keys d1"
    using cash_sweep_keys [of ts d1 "fcf - mp"] assms(1) k1 s by simp
  moreover have "dict_keys d3 = dict_keys d2"
    using revolver_loop_keys [of ts d2 "fcf - mp" sp 0] assms(1) k1 k2 r by simp
  ultimately show ?thesis by simp
qed

lemma run_years_keys:
  "run_years ts (init_balances ts) mi thr st projs = Inr st' \<Longrightarrow>
   dict_keys (st_balances st) = dict_keys (init_balances ts) \<Longrightarrow>
   dict_keys (st_balances st') = dict_keys (init_balances ts) \<and>
   name ` set ts \<subseteq> set (dict_keys (st_balances st'))"
proof (induction projs arbitrary: st)
  case Nil
  then show ?case by (simp add: init_balances_keys)
next
  case (Cons p projs)
  from Cons.prems(1) obtain st1 where 1: "year_step ts (init_balances ts) mi thr st p = Inr st1"
    and 2: "run_years ts (init_balances ts) mi thr st1 projs = Inr st'"
    by (auto split: sum.splits)
  have "name ` set ts \<subseteq> set (dict_keys (st_balances st))"
    by (simp add: Cons.prems(2) init_balances_keys)
  from year_step_keys [OF this 1] Cons.prems(2)
  have "dict_keys (st_balances st1) = dict_keys (init_balances ts)" by simp
  from Cons.IH [OF 2 this] show ?case .
qed

subsection \<open>Sources and uses\<close>

text \<open>
  In exact arithmetic the table of \<open>sources_and_uses\<close> balances for every model: sponsor
  equity is the plug \<open>purchase price + fees - debt\<close>, and the debt it subtracts is the debt
  the table adds. C10 says more: that the two totals, as the Python computes them, are equal
  exactly, whatever the tolerance of \<open>is_balanced\<close>. That is a statement about the rounding of
  doubles, where the plug does not cancel (for an EBITDA of 100 bought at 9 times with one
  tranche of 333.3, the totals are 924.6659999999999 and 924.666). It is not made here; the
  lemma is the identity of exact arithmetic and no more.
\<close>

lemma sources_and_uses_balanced_exact:
  "total_sources (sources_and_uses m) = total_uses (sources_and_uses m) \<and>
   (\<forall>t > 0. is_balanced (sources_and_uses m) t)"
proof -
  have "total_sources (sources_and_uses m) = total_uses (sources_and_uses m)"
    using sum_list_filter_split [of amount is_revolver "debt_tranches m"]
    by (simp add: total_sources_def total_uses_def sources_and_uses_def model_defs)
  then show ?thesis by (simp add: is_balanced_def)
qed

subsection \<open>Empty projection list\<close>

text \<open>
  C2. The claim is that \<open>run_model\<close> on a model without projections returns a result whose
  IRR is 0. The code reads \<open>self.projections[-1]\<close> before it reaches the guard
  \<open>years > 0\<close>, so the call raises IndexError, whatever the other inputs are.
\<close>

theorem run_model_empty_projections_raises:
  "run_model (m\<lparr>projections := []\<rparr>) max_iterations convergence_threshold = Inl IndexError"
  by (simp add: run_model_def)

subsection \<open>The inner interest / free-cash-flow loop\<close>

lemma run_years_append:
  "run_years ts orig mi thr st (ps @ qs) =
     (case run_years ts orig mi thr st ps of
        Inl e \<Rightarrow> Inl e
      | Inr st1 \<Rightarrow> run_years ts orig mi thr st1 qs)"
  by (induction ps arbitrary: st) (simp_all split: sum.split)

lemma year_step_row:
  assumes "1 \<le> mi"
  shows "\<exists>st'. year_step ts orig mi thr st proj = Inr st' \<and>
     (\<exists>row. st_rows st' = st_rows st @ [row] \<and>
        row_interest_expense row = spec_total_interest ts (st_balances st) \<and>
        row_fcf row = spec_fcf proj (spec_total_interest ts (st_balances st)))"
  using interest_fcf_loop_pos [OF assms, of ts "st_balances st" proj thr 0 None]
  by (simp add: year_step_def total_interest_of_spec calculate_free_cash_flow_spec
      Let_def split: prod.split)

lemma run_years_rows:
  "run_years ts orig mi thr st ps = Inr st' \<Longrightarrow>
   \<exists>rows. st_rows st' = st_rows st @ rows \<and> length rows = length ps"
proof (induction ps arbitrary: st)
  case Nil
  then show ?case by simp
next
  case (Cons p ps)
  from Cons.prems obtain st1 where 1: "year_step ts orig mi thr st p = Inr st1"
    and 2: "run_years ts orig mi thr st1 ps = Inr st'"
    by (auto split: sum.splits)
  from 1 obtain row where "st_rows st1 = st_rows st @ [row]"
    by (auto simp: year_step_def Let_def split: option.splits prod.splits)
  moreover from Cons.IH [OF 2] obtain rows where "st_rows st' = st_rows st1 @ rows"
    "length rows = length ps" by blast
  ultimately have "st_rows st' = st_rows st @ (row # rows) \<and> length (row # rows) = length (p # ps)"
    by simp
  then show ?case by blast
qed

lemma ledger_row_of_year:
  assumes mi: "1 \<le> mi" and i: "i < length ps"
  shows "\<exists>sti stn. run_years ts orig mi thr st (take i ps) = Inr sti \<and>
     run_years ts orig mi thr st ps = Inr stn \<and>
     row_interest_expense (st_rows stn ! (length (st_rows st) + i)) =
       spec_total_interest ts (st_balances sti) \<and>
     row_fcf (st_rows stn ! (length (st_rows st) + i)) =
       spec_fcf (ps ! i) (spec_total_interest ts (st_balances sti))"
proof -
  from run_years_returns [OF mi] obtain sti
    where sti: "run_years ts orig mi thr st (take i ps) = Inr sti" by blast
  from year_step_row [OF mi, of ts orig thr sti "ps ! i"] obtain st1 row
    where step: "year_step ts orig mi thr sti (ps ! i) = Inr st1"
      and rows1: "st_rows st1 = st_rows sti @ [row]"
      and int: "row_interest_expense row = spec_total_interest ts (st_balances sti)"
      and fcf: "row_fcf row = spec_fcf (ps ! i) (spec_total_interest ts (st_balances sti))"
    by blast
  from run_years_returns [OF mi] obtain stn
    where stn: "run_years ts orig mi thr st1 (drop (Suc i) ps) = Inr stn" by blast
  have ps: "ps = take i ps @ (ps ! i) # drop (Suc i) ps"
    using i by (simp add: id_take_nth_drop)
  have whole: "run_years ts orig mi thr st ps = Inr stn"
    by (subst ps) (simp add: run_years_append sti step stn)
  from run_years_rows [OF sti] i obtain rows_i
    where ri: "st_rows sti = st_rows st @ rows_i" "length rows_i = i" by auto
  from run_years_rows [OF stn] obtain rows_n
    where rn: "st_rows stn = st_rows st1 @ rows_n" by blast
  have "st_rows stn ! (length (st_rows st) + i) = row"
    using ri rn rows1 by (simp add: nth_append)
  with sti whole int fcf show ?thesis by simp
qed

text \<open>
  C3. For every \<open>max_iterations \<ge> 1\<close>, whatever the convergence threshold: the inner loop,
  from any balances, ends with the single-pass values; and for every projection year of a
  run, the ledger row of that year records as interest the sum over the tranches of
  start-of-year balance times interest rate (the balances being those that the years before
  have left), and as free cash flow the specification's formula at that interest.
\<close>

theorem inner_loop_is_single_pass:
  assumes "1 \<le> max_iterations"
  shows "interest_fcf_loop (nat max_iterations) ts d proj threshold 0 None =
           Some (spec_total_interest ts d, spec_fcf proj (spec_total_interest ts d)) \<and>
         (\<forall>i < length (projections m). \<exists>st r.
            run_years (debt_tranches m) (init_balances (debt_tranches m)) max_iterations threshold
              (start_state m) (take i (projections m)) = Inr st \<and>
            run_model m max_iterations threshold = Inr r \<and>
            row_interest_expense (yearly_results r ! i) =
              spec_total_interest (debt_tranches m) (st_balances st) \<and>
            row_fcf (yearly_results r ! i) =
              spec_fcf (projections m ! i) (spec_total_interest (debt_tranches m) (st_balances st)))"
proof (intro conjI allI impI)
  show "interest_fcf_loop (nat max_iterations) ts d proj threshold 0 None =
           Some (spec_total_interest ts d, spec_fcf proj (spec_total_interest ts d))"
    using interest_fcf_loop_pos [OF assms, of ts d proj threshold 0 None]
    by (simp add: total_interest_of_spec calculate_free_cash_flow_spec)
next
  fix i
  assume i: "i < length (projections m)"
  let ?ts = "debt_tranches m"
  from ledger_row_of_year [OF assms i, of ?ts "init_balances ?ts" threshold "start_state m"]
  obtain sti stn where sti: "run_years ?ts (init_balances ?ts) max_iterations threshold
        (start_state m) (take i (projections m)) = Inr sti"
    and stn: "run_years ?ts (init_balances ?ts) max_iterations threshold
        (start_state m) (projections m) = Inr stn"
    and int: "row_interest_expense (st_rows stn ! i) = spec_total_interest ?ts (st_balances sti)"
    and fcf: "row_fcf (st_rows stn ! i) =
        spec_fcf (projections m ! i) (spec_total_interest ?ts (st_balances sti))"
    by (auto simp: start_state_def)
  from i have ne: "projections m \<noteq> []" by auto
  from run_model_returns [OF assms ne] obtain r where r: "run_model m max_iterations threshold = Inr r"
    by blast
  then obtain st' where "run_years ?ts (init_balances ?ts) max_iterations threshold
        (start_state m) (projections m) = Inr st'" and "yearly_results r = st_rows st'"
    by (rule run_model_InrD)
  with stn have "yearly_results r = st_rows stn" by simp
  with sti r int fcf
  show "\<exists>st r. run_years ?ts (init_balances ?ts) max_iterations threshold
              (start_state m) (take i (projections m)) = Inr st \<and>
            run_model m max_iterations threshold = Inr r \<and>
            row_interest_expense (yearly_results r ! i) = spec_total_interest ?ts (st_balances st) \<and>
            row_fcf (yearly_results r ! i) =
              spec_fcf (projections m ! i) (spec_total_interest ?ts (st_balances st))"
    by auto
qed

theorem inner_loop_is_single_pass_witness:
  "(1::int) \<le> 10 \<and>
   interest_fcf_loop (nat 10) [unitranche] (init_balances [unitranche]) year_one (1 / 100) 0 None =
     Some (48, 237 / 8) \<and>
   (\<exists>r. run_model example_model 10 (1 / 100) = Inr r \<and>
      row_interest_expense (yearly_results r ! 0) = 48 \<and>
      row_fcf (yearly_results r ! 0) = 237 / 8)"
proof -
  have h: "(1::int) \<le> 10" by simp
  have "(0::nat) < length (projections example_model)" by (simp add: example_defs)
  with inner_loop_is_single_pass [OF h, of "[unitranche]" "init_balances [unitranche]" year_one
      "1 / 100" example_model]
  show ?thesis
    by (auto simp: unitranche_def year_one_def spec_total_interest_def spec_fcf_def
        init_balances_def dict_set_def dict_get_def run_example_model)
qed


subsection \<open>Balances never go negative\<close>

lemma nonneg_dict_get: "nonneg_balances d \<Longrightarrow> 0 \<le> dict_get d k"
  by (fastforce simp: nonneg_balances_def dict_get_def split: option.split dest: map_of_SomeD)

lemma set_update_subset: "set (AList.update k v d) \<subseteq> insert (k, v) (set d)"
  by (induction d) auto

lemma nonneg_dict_set: "nonneg_balances d \<Longrightarrow> 0 \<le> v \<Longrightarrow> nonneg_balances (dict_set d k v)"
  using set_update_subset [of k v d] by (auto simp: nonneg_balances_def dict_set_def)

lemma nonneg_foldl_init:
  "nonneg_balances d \<Longrightarrow> \<forall>t \<in> set ts. 0 \<le> amount t \<Longrightarrow>
   nonneg_balances (foldl (\<lambda>d t. dict_set d (name t) (amount t)) d ts)"
  by (induction ts arbitrary: d) (simp_all add: nonneg_dict_set)

lemma nonneg_init_balances:
  "\<forall>t \<in> set ts. 0 \<le> amount t \<Longrightarrow> nonneg_balances (init_balances ts)"
  unfolding init_balances_def by (rule nonneg_foldl_init) (simp_all add: nonneg_balances_def)

lemma nonneg_mandatory_loop:
  "nonneg_balances d \<Longrightarrow> nonneg_balances (fst (mandatory_loop ts orig (d, mp)))"
proof (induction ts arbitrary: d mp)
  case Nil
  then show ?case by simp
next
  case (Cons t ts)
  have "nonneg_balances (dict_set d (name t) (dict_get d (name t) - min x (dict_get d (name t))))" for x
    using Cons.prems by (intro nonneg_dict_set) simp_all
  with Cons show ?case by (simp add: Let_def)
qed

lemma nonneg_sweep_loop:
  "nonneg_balances d \<Longrightarrow> nonneg_balances (fst (sweep_loop ts (d, sp, rem)))"
proof (induction ts arbitrary: d sp rem)
  case Nil
  then show ?case by simp
next
  case (Cons t ts)
  have "nonneg_balances (dict_set d (name t) (dict_get d (name t) - min x (dict_get d (name t))))" for x
    using Cons.prems by (intro nonneg_dict_set) simp_all
  with Cons show ?case by (simp add: Let_def)
qed

lemma nonneg_cash_sweep:
  "nonneg_balances d \<Longrightarrow> nonneg_balances (fst (cash_sweep ts d cash))"
  using nonneg_sweep_loop [of d "sorted_tranches ts" 0 cash]
  by (auto simp: cash_sweep_def split: prod.split)

lemma nonneg_revolver_loop:
  "nonneg_balances d \<Longrightarrow> \<forall>t \<in> set ts. 0 \<le> revolver_commitment t \<Longrightarrow>
   nonneg_balances (fst (revolver_loop ts cash sp (d, rc)))"
proof (induction ts arbitrary: d rc)
  case Nil
  then show ?case by simp
next
  case (Cons t ts)
  have repay: "nonneg_balances (dict_set d (name t) (dict_get d (name t) - min x (dict_get d (name t))))" for x
    using Cons.prems(1) by (intro nonneg_dict_set) simp_all
  have draw: "nonneg_balances (dict_set d (name t)
      (dict_get d (name t) + min (- cash) (revolver_commitment t - dict_get d (name t))))"
    if "cash < 0"
    using Cons.prems that nonneg_dict_get [of d "name t"] by (intro nonneg_dict_set) auto
  from Cons repay draw show ?case by (auto simp: Let_def)
qed

lemma nonneg_year_step:
  assumes "nonneg_balances (st_balances st)" "\<forall>t \<in> set ts. 0 \<le> revolver_commitment t"
    "year_step ts orig mi thr st proj = Inr st'"
  shows "nonneg_balances (st_balances st')"
proof -
  obtain ti fcf where "interest_fcf_loop (nat mi) ts (st_balances st) proj thr 0 None = Some (ti, fcf)"
    using assms(3) by (auto simp: year_step_def split: option.splits)
  moreover obtain d1 mp where m: "mandatory_loop ts orig (st_balances st, 0) = (d1, mp)"
    by (cases "mandatory_loop ts orig (st_balances st, 0)")
  moreover obtain d2 sp where s: "cash_sweep ts d1 (fcf - mp) = (d2, sp)"
    by (cases "cash_sweep ts d1 (fcf - mp)")
  moreover obtain d3 rc where r: "revolver_loop ts (fcf - mp) sp (d2, 0) = (d3, rc)"
    by (cases "revolver_loop ts (fcf - mp) sp (d2, 0)")
  ultimately have "st_balances st' = d3"
    using assms(3) by (auto simp: year_step_def Let_def)
  moreover have "nonneg_balances d1"
    using nonneg_mandatory_loop [OF assms(1), of ts orig 0] m by simp
  then have "nonneg_balances d2"
    using nonneg_cash_sweep [of d1 ts "fcf - mp"] s by simp
  then have "nonneg_balances d3"
    using nonneg_revolver_loop [OF _ assms(2), of d2 "fcf - mp" sp 0] r by simp
  ultimately show ?thesis by simp
qed

lemma nonneg_run_years:
  "nonneg_balances (st_balances st) \<Longrightarrow> \<forall>t \<in> set ts. 0 \<le> revolver_commitment t \<Longrightarrow>
   run_years ts orig mi thr st projs = Inr st' \<Longrightarrow> nonneg_balances (st_balances st')"
proof (induction projs arbitrary: st)
  case Nil
  then show ?case by simp
next
  case (Cons p projs)
  from Cons.prems(3) obtain st1 where 1: "year_step ts orig mi thr st p = Inr st1"
    and 2: "run_years ts orig mi thr st1 projs = Inr st'"
    by (auto split: sum.splits)
  from nonneg_year_step [OF Cons.prems(1,2) 1] Cons.IH [OF _ Cons.prems(2) 2]
  show ?case by simp
qed

lemma nonneg_values_sum: "nonneg_balances d \<Longrightarrow> 0 \<le> dict_values_sum d"
  by (auto simp: nonneg_balances_def dict_values_sum_def intro!: sum_list_nonneg)

text \<open>
  C6. For a model whose tranches all have a non-negative amount and a non-negative revolver
  commitment, no balance is negative: not at the start, not after the mandatory
  amortization, the cash sweep or the revolver step taken from any state without a negative
  balance (whatever the cash), not after any number of projection years; hence the exit net
  debt, the sum of the final balances, is not negative.
\<close>

theorem balances_never_negative:
  assumes "\<forall>t \<in> set (debt_tranches m). 0 \<le> amount t \<and> 0 \<le> revolver_commitment t"
  shows "nonneg_balances (init_balances (debt_tranches m)) \<and>
    (\<forall>d. nonneg_balances d \<longrightarrow>
       (\<forall>orig mp. nonneg_balances (fst (mandatory_loop (debt_tranches m) orig (d, mp)))) \<and>
       (\<forall>cash. nonneg_balances (fst (cash_sweep (debt_tranches m) d cash))) \<and>
       (\<forall>cash sp rc. nonneg_balances (fst (revolver_loop (debt_tranches m) cash sp (d, rc))))) \<and>
    (\<forall>k st. run_years (debt_tranches m) (init_balances (debt_tranches m)) mi thr (start_state m)
              (take k (projections m)) = Inr st \<longrightarrow> nonneg_balances (st_balances st)) \<and>
    (\<forall>r. run_model m mi thr = Inr r \<longrightarrow> 0 \<le> exit_net_debt r)"
proof (intro conjI allI impI)
  show init: "nonneg_balances (init_balances (debt_tranches m))"
    using assms by (simp add: nonneg_init_balances)
  have comm: "\<forall>t \<in> set (debt_tranches m). 0 \<le> revolver_commitment t"
    using assms by simp
  show "nonneg_balances (fst (mandatory_loop (debt_tranches m) orig (d, mp)))"
    if "nonneg_balances d" for d orig mp
    using that by (rule nonneg_mandatory_loop)
  show "nonneg_balances (fst (cash_sweep (debt_tranches m) d cash))"
    if "nonneg_balances d" for d cash
    using that by (rule nonneg_cash_sweep)
  show "nonneg_balances (fst (revolver_loop (debt_tranches m) cash sp (d, rc)))"
    if "nonneg_balances d" for d cash sp rc
    using that comm by (rule nonneg_revolver_loop)
  have start: "nonneg_balances (st_balances (start_state m))"
    using init by (simp add: start_state_def)
  show "nonneg_balances (st_balances st)"
    if "run_years (debt_tranches m) (init_balances (debt_tranches m)) mi thr (start_state m)
          (take k (projections m)) = Inr st" for k st
    using start comm that by (rule nonneg_run_years)
  show "0 \<le> exit_net_debt r" if "run_model m mi thr = Inr r" for r
  proof -
    from that obtain st where
      "run_years (debt_tranches m) (init_balances (debt_tranches m)) mi thr (start_state m)
         (projections m) = Inr st"
      and "exit_net_debt r = dict_values_sum (st_balances st)"
      by (rule run_model_InrD)
    with nonneg_run_years [OF start comm] show ?thesis
      by (simp add: nonneg_values_sum)
  qed
qed

theorem balances_never_negative_witness:
  "(0 \<le> amount unitranche \<and> 0 \<le> revolver_commitment unitranche \<and>
    0 \<le> amount revolver \<and> 0 \<le> revolver_commitment revolver) \<and>
   nonneg_balances (init_balances (debt_tranches revolver_model)) \<and>
   (\<exists>r. run_model revolver_model 10 (1 / 100) = Inr r \<and> 0 \<le> exit_net_debt r)"
proof -
  have h: "\<forall>t \<in> set (debt_tranches revolver_model). 0 \<le> amount t \<and> 0 \<le> revolver_commitment t"
    by (simp add: example_defs)
  have "0 \<le> amount unitranche \<and> 0 \<le> revolver_commitment unitranche \<and>
    0 \<le> amount revolver \<and> 0 \<le> revolver_commitment revolver"
    by (simp add: example_defs)
  with balances_never_negative [OF h, of 10 "1 / 100"] run_revolver_model
  show ?thesis by auto
qed

subsection \<open>Repeated runs\<close>

text \<open>
  C8. Two calls of \<open>run_model\<close> in succession on one instance, the second on the instance
  as the first leaves it: the second returns what the first returned, field by field, and
  the instance is as it was.
\<close>

theorem run_model_idempotent:
  assumes "run_model_call m mi thr = (r1, m1)" and "run_model_call m1 mi thr = (r2, m2)"
  shows "r2 = r1 \<and> m2 = m"
  using assms by (auto simp: run_model_call_def)


theorem run_model_idempotent_witness:
  "\<exists>r. fst (run_model_call example_model 10 (1 / 100)) = Inr r \<and>
       fst (run_model_call (snd (run_model_call example_model 10 (1 / 100))) 10 (1 / 100)) = Inr r"
  using run_model_idempotent [OF surjective_pairing surjective_pairing, of example_model 10 "1 / 100"]
    run_example_model
  by (simp add: run_model_call_def)

subsection \<open>Order of the cash sweep\<close>

lemma sweep_loop_stop: "rem \<le> 0 \<Longrightarrow> sweep_loop ts (d, sp, rem) = (d, sp, rem)"
  by (cases ts) simp_all

lemma sweep_loop_append:
  "sweep_loop (xs @ ys) s = sweep_loop ys (sweep_loop xs s)"
proof (induction xs arbitrary: s)
  case Nil
  then show ?case by (cases s) simp
next
  case (Cons t xs)
  obtain d sp rem where s: "s = (d, sp, rem)" by (cases s)
  show ?case
  proof (cases "rem \<le> 0")
    case True
    then show ?thesis by (simp add: s sweep_loop_stop)
  next
    case False
    then show ?thesis by (simp add: s Let_def Cons.IH)
  qed
qed

lemma sweep_loop_zero_stays:
  "dict_get d k = 0 \<Longrightarrow> dict_get (fst (sweep_loop ts (d, sp, rem))) k = 0"
proof (induction ts arbitrary: d sp rem)
  case Nil
  then show ?case by simp
next
  case (Cons t ts)
  show ?case
  proof (cases "rem \<le> 0")
    case True
    with Cons.prems show ?thesis by simp
  next
    case False
    have "dict_get (dict_set d (name t) (dict_get d (name t) - min rem (dict_get d (name t)))) k = 0"
      using Cons.prems False by (auto simp: dict_get_set)
    from Cons.IH [OF this] False show ?thesis by (simp add: Let_def)
  qed
qed

lemma sweep_loop_untouched:
  "k \<notin> name ` set ts \<Longrightarrow> dict_get (fst (sweep_loop ts (d, sp, rem))) k = dict_get d k"
proof (induction ts arbitrary: d sp rem)
  case Nil
  then show ?case by simp
next
  case (Cons t ts)
  then show ?case by (simp add: Let_def dict_get_set)
qed

lemma sweep_loop_cash_left:
  assumes "sweep_loop ts (d, sp, rem) = (d1, sp1, rem1)" "0 < rem1"
  shows "\<forall>s \<in> set ts. dict_get d1 (name s) = 0"
  using assms
proof (induction ts arbitrary: d sp rem)
  case Nil
  then show ?case by simp
next
  case (Cons t ts)
  have pos: "0 < rem"
  proof (rule ccontr)
    assume "\<not> 0 < rem"
    with Cons.prems show False by simp
  qed
  let ?pay = "min rem (dict_get d (name t))"
  let ?d = "dict_set d (name t) (dict_get d (name t) - ?pay)"
  from Cons.prems(1) pos
  have rest: "sweep_loop ts (?d, sp + ?pay, rem - ?pay) = (d1, sp1, rem1)"
    by (simp add: Let_def)
  have left: "0 < rem - ?pay"
  proof (rule ccontr)
    assume "\<not> 0 < rem - ?pay"
    then have "sweep_loop ts (?d, sp + ?pay, rem - ?pay) = (?d, sp + ?pay, rem - ?pay)"
      by (intro sweep_loop_stop) simp
    with rest Cons.prems(2) \<open>\<not> 0 < rem - ?pay\<close> show False by simp
  qed
  then have "dict_get ?d (name t) = 0"
    by (simp add: dict_get_set min_def split: if_splits)
  from sweep_loop_zero_stays [OF this, of ts "sp + ?pay" "rem - ?pay"] rest
  have "dict_get d1 (name t) = 0" by simp
  moreover from Cons.IH [OF rest Cons.prems(2)] have "\<forall>s \<in> set ts. dict_get d1 (name s) = 0" .
  ultimately show ?case by simp
qed

lemma set_sorted_tranches: "set (sorted_tranches ts) = {t \<in> set ts. \<not> is_revolver t}"
  by (auto simp: sorted_tranches_def)

lemma sorted_sorted_tranches: "sorted (map cash_sweep_priority (sorted_tranches ts))"
  by (simp add: sorted_tranches_def)

lemma lower_priority_before:
  assumes "sorted_tranches ts = pre @ t # post" "s \<in> set ts" "\<not> is_revolver s"
    "cash_sweep_priority s < cash_sweep_priority t"
  shows "s \<in> set pre"
proof -
  have "s \<in> set (pre @ t # post)"
    using assms(2,3) set_sorted_tranches [of ts] by (simp add: assms(1) [symmetric])
  moreover have "sorted (map cash_sweep_priority (pre @ t # post))"
    using sorted_sorted_tranches [of ts] by (simp add: assms(1))
  then have "\<forall>x \<in> set (t # post). cash_sweep_priority t \<le> cash_sweep_priority x"
    by (auto simp: sorted_append)
  ultimately show ?thesis using assms(4) by auto
qed

lemma distinct_map_insort_key:
  "distinct (map f (insort_key g x xs)) \<longleftrightarrow> f x \<notin> f ` set xs \<and> distinct (map f xs)"
  by (induction xs) (auto simp: set_insort_key)

lemma distinct_map_sort_key: "distinct (map f (sort_key g xs)) = distinct (map f xs)"
  by (induction xs) (simp_all add: distinct_map_insort_key)

lemma distinct_names_sorted:
  "distinct (map name (non_revolvers ts)) \<Longrightarrow> distinct (map name (sorted_tranches ts))"
  by (simp add: sorted_tranches_def non_revolvers_def distinct_map_sort_key)

lemma cash_sweep_name_level:
  assumes dist: "distinct (map name (non_revolvers ts))"
    and s: "s \<in> set ts" "\<not> is_revolver s" and t: "t \<in> set ts" "\<not> is_revolver t"
    and lt: "cash_sweep_priority s < cash_sweep_priority t"
    and paid: "dict_get (fst (cash_sweep ts d cash)) (name t) \<noteq> dict_get d (name t)"
  shows "dict_get (fst (cash_sweep ts d cash)) (name s) = 0"
proof -
  have pos: "0 < cash"
    using paid by (auto simp: cash_sweep_def split: if_splits)
  then have cs: "fst (cash_sweep ts d cash) = fst (sweep_loop (sorted_tranches ts) (d, 0, cash))"
    by (simp add: cash_sweep_def split: prod.split)
  from t have "t \<in> set (sorted_tranches ts)" by (simp add: set_sorted_tranches)
  then obtain pre post where split: "sorted_tranches ts = pre @ t # post"
    by (auto dest: split_list)
  have s_pre: "s \<in> set pre" using split s lt by (rule lower_priority_before)
  obtain d1 sp1 rem1 where pre: "sweep_loop pre (d, 0, cash) = (d1, sp1, rem1)"
    by (cases "sweep_loop pre (d, 0, cash)")
  have whole: "sweep_loop (sorted_tranches ts) (d, 0, cash) = sweep_loop (t # post) (d1, sp1, rem1)"
    by (simp add: split sweep_loop_append pre)
  have "name t \<notin> name ` set pre"
    using distinct_names_sorted [OF dist] by (auto simp: split)
  then have t_pre: "dict_get d1 (name t) = dict_get d (name t)"
    using sweep_loop_untouched [of "name t" pre d 0 cash] pre by simp
  have "0 < rem1"
  proof (rule ccontr)
    assume "\<not> 0 < rem1"
    then have "sweep_loop (t # post) (d1, sp1, rem1) = (d1, sp1, rem1)" by simp
    with whole cs t_pre paid show False by simp
  qed
  with pre s_pre have "dict_get d1 (name s) = 0"
    using sweep_loop_cash_left by blast
  from sweep_loop_zero_stays [OF this, of "t # post" sp1 rem1] whole cs show ?thesis by simp
qed

lemma senior_before_mezz:
  assumes "cash < dict_get d ''Senior''"
  shows "dict_get (fst (cash_sweep [senior, mezz] d cash)) ''Mezz'' = dict_get d ''Mezz''"
  using assms
  by (simp add: cash_sweep_def sorted_tranches_def senior_def mezz_def Let_def dict_get_set)


text \<open>
  C7. The cash sweep of a year, from any balances \<open>d\<close> and any cash. The tranches are among
  the non-revolver tranches throughout, as in the claim's first clause.
  \<^item> The walk goes through exactly the non-revolver tranches, in ascending order of
    \<open>cash_sweep_priority\<close>.
  \<^item> Wherever the walk stands (\<open>pre\<close> done, \<open>t\<close> next): every tranche of strictly lower
    priority number than \<open>t\<close> is in \<open>pre\<close>; if cash is left for \<open>t\<close>, every tranche of \<open>pre\<close>
    has balance zero; if none is left, the sweep ends in the state it is in, with no payment
    to \<open>t\<close> or to a later tranche.
  \<^item> With distinct names of the non-revolver tranches: if the sweep changes the balance of
    \<open>t\<close>, every tranche of strictly lower priority number ends the sweep with balance zero.
  \<^item> For the Senior (priority 1) and Mezz (priority 2) pair: when the sweep cash is less
    than Senior's balance, the balance of Mezz is untouched.
\<close>

theorem cash_sweep_priority_order:
  "sorted (map cash_sweep_priority (sorted_tranches ts)) \<and>
   set (sorted_tranches ts) = {t \<in> set ts. \<not> is_revolver t} \<and>
   (\<forall>pre t post. sorted_tranches ts = pre @ t # post \<longrightarrow>
      sweep_loop (sorted_tranches ts) (d, 0, cash) =
        sweep_loop (t # post) (sweep_loop pre (d, 0, cash)) \<and>
      (\<forall>s \<in> set ts. \<not> is_revolver s \<and> cash_sweep_priority s < cash_sweep_priority t \<longrightarrow>
         s \<in> set pre) \<and>
      (\<forall>d1 sp1 rem1. sweep_loop pre (d, 0, cash) = (d1, sp1, rem1) \<longrightarrow>
         (0 < rem1 \<longrightarrow> (\<forall>s \<in> set pre. dict_get d1 (name s) = 0)) \<and>
         (rem1 \<le> 0 \<longrightarrow> sweep_loop (sorted_tranches ts) (d, 0, cash) = (d1, sp1, rem1)))) \<and>
   (distinct (map name (non_revolvers ts)) \<longrightarrow>
      (\<forall>s \<in> set ts. \<forall>t \<in> set ts.
         \<not> is_revolver s \<and> \<not> is_revolver t \<and>
         cash_sweep_priority s < cash_sweep_priority t \<and>
         dict_get (fst (cash_sweep ts d cash)) (name t) \<noteq> dict_get d (name t) \<longrightarrow>
         dict_get (fst (cash_sweep ts d cash)) (name s) = 0)) \<and>
   (cash < dict_get d ''Senior'' \<longrightarrow>
      dict_get (fst (cash_sweep [senior, mezz] d cash)) ''Mezz'' = dict_get d ''Mezz'')"
proof (intro conjI allI impI ballI)
  show "sorted (map cash_sweep_priority (sorted_tranches ts))"
    by (rule sorted_sorted_tranches)
  show "set (sorted_tranches ts) = {t \<in> set ts. \<not> is_revolver t}"
    by (rule set_sorted_tranches)
next
  fix pre t post
  assume split: "sorted_tranches ts = pre @ t # post"
  show whole: "sweep_loop (sorted_tranches ts) (d, 0, cash) =
      sweep_loop (t # post) (sweep_loop pre (d, 0, cash))"
    by (simp only: split sweep_loop_append)
  show "s \<in> set pre"
    if "s \<in> set ts" "\<not> is_revolver s \<and> cash_sweep_priority s < cash_sweep_priority t" for s
    using split that by (auto intro: lower_priority_before)
  fix d1 sp1 rem1
  assume pre: "sweep_loop pre (d, 0, cash) = (d1, sp1, rem1)"
  show "dict_get d1 (name s) = 0" if "0 < rem1" "s \<in> set pre" for s
    using sweep_loop_cash_left [OF pre that(1)] that(2) by simp
  show "sweep_loop (sorted_tranches ts) (d, 0, cash) = (d1, sp1, rem1)" if "rem1 \<le> 0"
    using that by (simp add: whole pre)
next
  fix s t
  assume "distinct (map name (non_revolvers ts))" "s \<in> set ts" "t \<in> set ts"
    "\<not> is_revolver s \<and> \<not> is_revolver t \<and>
     cash_sweep_priority s < cash_sweep_priority t \<and>
     dict_get (fst (cash_sweep ts d cash)) (name t) \<noteq> dict_get d (name t)"
  then show "dict_get (fst (cash_sweep ts d cash)) (name s) = 0"
    by (auto intro: cash_sweep_name_level)
next
  assume "cash < dict_get d ''Senior''"
  then show "dict_get (fst (cash_sweep [senior, mezz] d cash)) ''Mezz'' = dict_get d ''Mezz''"
    by (rule senior_before_mezz)
qed

theorem cash_sweep_priority_order_witness:
  "sorted_tranches [mezz, senior] = [senior] @ mezz # [] \<and>
   sweep_loop [senior] (init_balances [mezz, senior], 0, 450) =
     ([(''Mezz'', 150), (''Senior'', 0)], 400, 50) \<and>
   distinct (map name (non_revolvers [mezz, senior])) \<and>
   cash_sweep_priority senior < cash_sweep_priority mezz \<and>
   dict_get (fst (cash_sweep [mezz, senior] (init_balances [mezz, senior]) 450)) ''Mezz'' = 100 \<and>
   dict_get (init_balances [mezz, senior]) ''Mezz'' = 150 \<and>
   dict_get (fst (cash_sweep [mezz, senior] (init_balances [mezz, senior]) 450)) ''Senior'' = 0 \<and>
   100 < dict_get (init_balances [mezz, senior]) ''Senior'' \<and>
   dict_get (fst (cash_sweep [senior, mezz] (init_balances [mezz, senior]) 100)) ''Mezz'' = 150"
  using cash_sweep_priority_order [of "[mezz, senior]" "init_balances [mezz, senior]" 450]
    cash_sweep_priority_order [of "[mezz, senior]" "init_balances [mezz, senior]" 100]
  by (simp add: step_defs non_revolvers_def senior_def mezz_def)

subsection \<open>Total paydown against entry and exit debt\<close>

lemma dict_values_sum_set:
  "k \<in> set (dict_keys d) \<Longrightarrow>
   dict_values_sum (dict_set d k v) = dict_values_sum d - dict_get d k + v"
proof (induction d)
  case Nil
  then show ?case by (simp add: dict_keys_def)
next
  case (Cons kv d)
  show ?case
  proof (cases "fst kv = k")
    case True
    then show ?thesis
      by (cases kv) (simp add: dict_values_sum_def dict_set_def dict_get_def)
  next
    case False
    with Cons.prems have "k \<in> set (dict_keys d)" by (simp add: dict_keys_def)
    from Cons.IH [OF this] False show ?thesis
      by (cases kv) (simp add: dict_values_sum_def dict_set_def dict_get_def)
  qed
qed

lemma init_balances_distinct_aux:
  "distinct (map fst d @ map name ts) \<Longrightarrow>
   foldl (\<lambda>d t. dict_set d (name t) (amount t)) d ts = d @ map (\<lambda>t. (name t, amount t)) ts"
proof (induction ts arbitrary: d)
  case Nil
  then show ?case by simp
next
  case (Cons t ts)
  from Cons.prems have "name t \<notin> fst ` set d" by auto
  then have "dict_set d (name t) (amount t) = d @ [(name t, amount t)]"
    unfolding dict_set_def by (induction d) auto
  moreover from Cons.prems have "distinct (map fst (d @ [(name t, amount t)]) @ map name ts)"
    by auto
  ultimately show ?case using Cons.IH [of "d @ [(name t, amount t)]"] by simp
qed

lemma init_balances_distinct:
  "distinct (map name ts) \<Longrightarrow> init_balances ts = map (\<lambda>t. (name t, amount t)) ts"
  using init_balances_distinct_aux [of "[]" ts] by (simp add: init_balances_def)

lemma mandatory_loop_sum:
  assumes "name ` set ts \<subseteq> set (dict_keys d)" "mandatory_loop ts orig (d, mp) = (d', mp')"
  shows "dict_values_sum d' + mp' = dict_values_sum d + mp \<and> dict_keys d' = dict_keys d"
  using assms
proof (induction ts arbitrary: d mp)
  case Nil
  then show ?case by simp
next
  case (Cons t ts)
  show ?case
  proof (cases "is_revolver t")
    case True
    with Cons show ?thesis by simp
  next
    case False
    let ?a = "min (annual_amortization t (dict_get orig (name t))) (dict_get d (name t))"
    let ?d = "dict_set d (name t) (dict_get d (name t) - ?a)"
    have k: "name t \<in> set (dict_keys d)" using Cons.prems(1) by simp
    have "mandatory_loop ts orig (?d, mp + ?a) = (d', mp')"
      using Cons.prems(2) False by (simp add: Let_def)
    moreover have "name ` set ts \<subseteq> set (dict_keys ?d)"
      using Cons.prems(1) by (simp add: dict_keys_set [OF k])
    ultimately have "dict_values_sum d' + mp' = dict_values_sum ?d + (mp + ?a) \<and>
        dict_keys d' = dict_keys ?d"
      by (rule Cons.IH [rotated])
    then show ?thesis by (simp add: dict_values_sum_set [OF k] dict_keys_set [OF k])
  qed
qed

lemma sweep_loop_sum:
  assumes "name ` set ts \<subseteq> set (dict_keys d)" "sweep_loop ts (d, sp, rem) = (d', sp', rem')"
  shows "dict_values_sum d' + sp' = dict_values_sum d + sp \<and> dict_keys d' = dict_keys d"
  using assms
proof (induction ts arbitrary: d sp rem)
  case Nil
  then show ?case by simp
next
  case (Cons t ts)
  show ?case
  proof (cases "rem \<le> 0")
    case True
    with Cons.prems show ?thesis by simp
  next
    case False
    let ?a = "min rem (dict_get d (name t))"
    let ?d = "dict_set d (name t) (dict_get d (name t) - ?a)"
    have k: "name t \<in> set (dict_keys d)" using Cons.prems(1) by simp
    have "sweep_loop ts (?d, sp + ?a, rem - ?a) = (d', sp', rem')"
      using Cons.prems(2) False by (simp add: Let_def)
    moreover have "name ` set ts \<subseteq> set (dict_keys ?d)"
      using Cons.prems(1) by (simp add: dict_keys_set [OF k])
    ultimately have "dict_values_sum d' + sp' = dict_values_sum ?d + (sp + ?a) \<and>
        dict_keys d' = dict_keys ?d"
      by (rule Cons.IH [rotated])
    then show ?thesis by (simp add: dict_values_sum_set [OF k] dict_keys_set [OF k])
  qed
qed

lemma set_sorted_tranches_subset: "set (sorted_tranches ts) \<subseteq> set ts"
  by (auto simp: sorted_tranches_def)

lemma cash_sweep_sum:
  assumes "name ` set ts \<subseteq> set (dict_keys d)" "cash_sweep ts d cash = (d', sp')"
  shows "dict_values_sum d' + sp' = dict_values_sum d \<and> dict_keys d' = dict_keys d"
proof (cases "0 < cash")
  case False
  with assms(2) show ?thesis by (simp add: cash_sweep_def)
next
  case True
  obtain rem' where l: "sweep_loop (sorted_tranches ts) (d, 0, cash) = (d', sp', rem')"
    using assms(2) True by (auto simp: cash_sweep_def split: prod.splits)
  have "name ` set (sorted_tranches ts) \<subseteq> set (dict_keys d)"
    using assms(1) set_sorted_tranches_subset [of ts] by blast
  from sweep_loop_sum [OF this l] show ?thesis by simp
qed

lemma revolver_loop_none:
  "\<forall>t \<in> set ts. \<not> is_revolver t \<Longrightarrow> revolver_loop ts cash sp (d, rc) = (d, rc)"
  by (induction ts) simp_all

lemma revolver_loop_sum:
  assumes "name ` set ts \<subseteq> set (dict_keys d)" "length (filter is_revolver ts) \<le> 1"
    "revolver_loop ts cash sp (d, 0) = (d', rc')"
  shows "dict_values_sum d' - rc' = dict_values_sum d \<and> dict_keys d' = dict_keys d"
  using assms
proof (induction ts)
  case Nil
  then show ?case by simp
next
  case (Cons t ts)
  show ?case
  proof (cases "is_revolver t")
    case False
    with Cons show ?thesis by simp
  next
    case True
    with Cons.prems(2) have "filter is_revolver ts = []" by simp
    then have none: "\<forall>t \<in> set ts. \<not> is_revolver t" by (simp add: filter_empty_conv)
    have k: "name t \<in> set (dict_keys d)" using Cons.prems(1) by simp
    from Cons.prems(3) True show ?thesis
      by (auto simp: Let_def revolver_loop_none [OF none] dict_values_sum_set [OF k]
          dict_keys_set [OF k] split: if_splits)
  qed
qed

lemma year_step_sum:
  assumes keys: "name ` set ts \<subseteq> set (dict_keys (st_balances st))"
    and one: "length (filter is_revolver ts) \<le> 1"
    and step: "year_step ts orig mi thr st proj = Inr st'"
  shows "dict_values_sum (st_balances st') + st_total_paydown st' =
         dict_values_sum (st_balances st) + st_total_paydown st \<and>
         dict_keys (st_balances st') = dict_keys (st_balances st)"
proof -
  obtain ti fcf where "interest_fcf_loop (nat mi) ts (st_balances st) proj thr 0 None = Some (ti, fcf)"
    using step by (auto simp: year_step_def split: option.splits)
  moreover obtain d1 mp where m: "mandatory_loop ts orig (st_balances st, 0) = (d1, mp)"
    by (cases "mandatory_loop ts orig (st_balances st, 0)")
  moreover obtain d2 sp where s: "cash_sweep ts d1 (fcf - mp) = (d2, sp)"
    by (cases "cash_sweep ts d1 (fcf - mp)")
  moreover obtain d3 rc where r: "revolver_loop ts (fcf - mp) sp (d2, 0) = (d3, rc)"
    by (cases "revolver_loop ts (fcf - mp) sp (d2, 0)")
  ultimately have st': "st_balances st' = d3"
    "st_total_paydown st' = st_total_paydown st + (mp + sp - rc)"
    using step by (auto simp: year_step_def Let_def)
  from mandatory_loop_sum [OF keys m]
  have 1: "dict_values_sum d1 + mp = dict_values_sum (st_balances st)"
    and k1: "dict_keys d1 = dict_keys (st_balances st)" by simp_all
  from keys k1 have "name ` set ts \<subseteq> set (dict_keys d1)" by simp
  from cash_sweep_sum [OF this s]
  have 2: "dict_values_sum d2 + sp = dict_values_sum d1" and k2: "dict_keys d2 = dict_keys d1"
    by simp_all
  from keys k1 k2 have "name ` set ts \<subseteq> set (dict_keys d2)" by simp
  from revolver_loop_sum [OF this one r]
  have 3: "dict_values_sum d3 - rc = dict_values_sum d2" and k3: "dict_keys d3 = dict_keys d2"
    by simp_all
  from 1 2 3 k1 k2 k3 st' show ?thesis by simp
qed

lemma run_years_sum:
  assumes "name ` set ts \<subseteq> set (dict_keys (st_balances st))"
    "length (filter is_revolver ts) \<le> 1"
    "run_years ts orig mi thr st projs = Inr st'"
  shows "dict_values_sum (st_balances st') + st_total_paydown st' =
         dict_values_sum (st_balances st) + st_total_paydown st"
  using assms
proof (induction projs arbitrary: st)
  case Nil
  then show ?case by simp
next
  case (Cons p projs)
  from Cons.prems(3) obtain st1 where 1: "year_step ts orig mi thr st p = Inr st1"
    and 2: "run_years ts orig mi thr st1 projs = Inr st'"
    by (auto split: sum.splits)
  from year_step_sum [OF Cons.prems(1,2) 1]
  have s: "dict_values_sum (st_balances st1) + st_total_paydown st1 =
         dict_values_sum (st_balances st) + st_total_paydown st"
    and k: "dict_keys (st_balances st1) = dict_keys (st_balances st)" by simp_all
  from Cons.prems(1) k have "name ` set ts \<subseteq> set (dict_keys (st_balances st1))" by simp
  from Cons.IH [OF this Cons.prems(2) 2] s show ?case by simp
qed

lemma run_two_revolver_model:
  "run_model two_revolver_model 10 (1 / 100) =
   Inr \<lparr>entry_equity = 1020, exit_equity = 75, moic = 5 / 68,
        irr = - (63 / 68), exit_enterprise_value = 100, exit_net_debt = 25,
        total_debt_paydown = - (25 / 2),
        yearly_results =
          [\<lparr>row_year = 1, row_ebitda = 10, row_interest_expense = 0,
              row_fcf = - (25 / 2), row_mandatory_amortization = 0,
              row_cash_sweep = 0, row_revolver_change = 25 / 2,
              row_ending_debt = 25\<rparr>]\<rparr>"
  by (simp add: run_defs example_defs)

lemma run_same_name_model:
  "run_model same_name_model 10 (1 / 100) =
   Inr \<lparr>entry_equity = - 156, exit_equity = 462, moic = 0, irr = 0,
        exit_enterprise_value = 1050, exit_net_debt = 588,
        total_debt_paydown = 12,
        yearly_results =
          [\<lparr>row_year = 1, row_ebitda = 105, row_interest_expense = 96,
              row_fcf = - (27 / 4), row_mandatory_amortization = 12,
              row_cash_sweep = 0, row_revolver_change = 0,
              row_ending_debt = 588\<rparr>]\<rparr>"
  by (simp add: run_defs example_defs)

text \<open>
  In exact arithmetic the yearly paydowns telescope: for a model with projections, pairwise
  distinct tranche names and at most one revolver tranche (the specification's data model),
  and \<open>max_iterations \<ge> 1\<close>, \<open>run_model\<close> returns and the total paydown it reports is total
  initial debt minus exit net debt. C5 says that the two doubles the Python computes are
  equal exactly. They are two different sums of rounded terms, and differ in the last place
  on ordinary input (the five-year fixture of the test suite gives 203.57225253375006 for
  the total paydown and 203.5722525337501 for initial minus exit debt); what does hold of
  them is a bound on a rounding error. C5 is therefore not stated here; the lemma is the
  identity of exact arithmetic and no more.
\<close>

lemma total_paydown_telescopes_exact:
  assumes "projections m \<noteq> []" and "1 \<le> max_iterations"
    and "distinct (map name (debt_tranches m))"
    and "length (filter is_revolver (debt_tranches m)) \<le> 1"
  shows "\<exists>r. run_model m max_iterations threshold = Inr r \<and>
             total_debt_paydown r = total_initial_debt m - exit_net_debt r"
proof -
  from run_model_returns [OF assms(2,1)] obtain r where r: "run_model m max_iterations threshold = Inr r"
    by blast
  then obtain st where run:
    "run_years (debt_tranches m) (init_balances (debt_tranches m)) max_iterations threshold
       (start_state m) (projections m) = Inr st"
    and exit: "exit_net_debt r = dict_values_sum (st_balances st)"
    and pay: "total_debt_paydown r = st_total_paydown st"
    by (rule run_model_InrD)
  have "name ` set (debt_tranches m) \<subseteq> set (dict_keys (st_balances (start_state m)))"
    by (simp add: start_state_def init_balances_keys)
  from run_years_sum [OF this assms(4) run]
  have "dict_values_sum (st_balances st) + st_total_paydown st =
        dict_values_sum (init_balances (debt_tranches m))"
    by (simp add: start_state_def)
  also have "\<dots> = total_initial_debt m"
    by (simp add: init_balances_distinct [OF assms(3)] dict_values_sum_def total_initial_debt_def
        comp_def)
  finally show ?thesis using r exit pay by simp
qed

text \<open>
  The two hypotheses on the tranches are needed even in exact arithmetic: with two
  revolvers both draw the year's whole shortfall and \<open>revolver_change\<close> keeps the last draw
  only; with one name for two tranches the balance dict holds one entry for both.
\<close>

lemma total_paydown_needs_names_and_revolver:
  "projections two_revolver_model \<noteq> [] \<and>
   map_sum id total_debt_paydown (run_model two_revolver_model 10 (1 / 100)) = Inr (- (25 / 2)) \<and>
   map_sum id exit_net_debt (run_model two_revolver_model 10 (1 / 100)) = Inr 25 \<and>
   total_initial_debt two_revolver_model = 0 \<and>
   (- (25 / 2) :: real) \<noteq> 0 - 25 \<and>
   projections same_name_model \<noteq> [] \<and>
   map_sum id total_debt_paydown (run_model same_name_model 10 (1 / 100)) = Inr 12 \<and>
   map_sum id exit_net_debt (run_model same_name_model 10 (1 / 100)) = Inr 588 \<and>
   total_initial_debt same_name_model = 1200 \<and>
   (12 :: real) \<noteq> 1200 - 588"
  by (simp add: run_two_revolver_model run_same_name_model)
    (simp add: total_initial_debt_def example_defs)

subsection \<open>The entry-multiple solver\<close>

lemma rescale_loop_id:
  "rescale_loop ts (mid / orig) mid orig = Inr ts' \<Longrightarrow> ts' = ts"
proof (induction ts arbitrary: ts')
  case Nil
  then show ?case by simp
next
  case (Cons t ts)
  from Cons.prems have nz: "orig \<noteq> 0" "mid / orig \<noteq> 0"
    by (auto split: if_splits)
  with Cons.prems obtain ts1 where 1: "rescale_loop ts (mid / orig) mid orig = Inr ts1"
    and 2: "ts' = t\<lparr>amount := amount t * (mid / orig) / (mid / orig)\<rparr> # ts1"
    by (auto split: sum.splits)
  from nz have "amount t * (mid / orig) / (mid / orig) = amount t" by simp
  with 2 Cons.IH [OF 1] show ?case by simp
qed

lemma trial_model_id:
  "trial_model m orig mid = Inr m2 \<Longrightarrow> m2 = m\<lparr>entry_multiple := mid\<rparr>"
  by (auto simp: trial_model_def Let_def split: if_splits sum.splits dest!: rescale_loop_id)

lemma solve_loop_restores:
  "solve_loop n m orig target low high tol = (Inr outcome, m') \<Longrightarrow>
   m' = m\<lparr>entry_multiple := orig\<rparr>"
proof (induction n arbitrary: m low high)
  case 0
  then show ?case by simp
next
  case (Suc n)
  let ?mid = "(low + high) / 2"
  from Suc.prems obtain m2 where t: "trial_model m orig ?mid = Inr m2"
    by (auto simp: Let_def split: sum.splits)
  then have m2: "m2 = m\<lparr>entry_multiple := ?mid\<rparr>" by (rule trial_model_id)
  from Suc.prems t obtain result where r: "run_model_default m2 = Inr result"
    by (auto simp: Let_def split: sum.splits)
  consider (hit) "\<bar>irr result - target\<bar> < tol"
    | (up) "\<not> \<bar>irr result - target\<bar> < tol" "irr result > target"
    | (down) "\<not> \<bar>irr result - target\<bar> < tol" "\<not> irr result > target"
    by blast
  then show ?case
  proof cases
    case hit
    with Suc.prems t r m2 show ?thesis by (simp add: Let_def)
  next
    case up
    with Suc.prems t r have "solve_loop n m2 orig target ?mid high tol = (Inr outcome, m')"
      by (simp add: Let_def)
    from Suc.IH [OF this] m2 show ?thesis by simp
  next
    case down
    with Suc.prems t r have "solve_loop n m2 orig target low ?mid tol = (Inr outcome, m')"
      by (simp add: Let_def)
    from Suc.IH [OF this] m2 show ?thesis by simp
  qed
qed

text \<open>
  In exact arithmetic, whenever \<open>solve_for_entry_multiple\<close> returns (the midpoint when the
  tolerance is met, or \<open>None\<close> when the iterations are used up), the instance is what it was
  before the call: the entry multiple is assigned back, and each trial multiplies and
  divides every amount by the same ratio. That cancellation is all that keeps the amounts:
  the code has no assignment that puts an amount back, as it has for the entry multiple. In
  doubles the product and the quotient are rounded, \<open>600 * (10 / 11) / (10 / 11)\<close> is
  599.9999999999999, and the search on a deal bought at 11 times EBITDA returns with that
  amount in the tranche. So what C4 requires fails in the code; an embedding over the reals
  cannot exhibit it, and the lemma is the identity of exact arithmetic and no more.
\<close>

lemma solver_restores_model_exact:
  assumes "solve_for_entry_multiple m target_irr min_multiple max_multiple tolerance =
           (Inr outcome, m')"
  shows "entry_multiple m' = entry_multiple m \<and>
         map amount (debt_tranches m') = map amount (debt_tranches m) \<and> m' = m"
  using solve_loop_restores [OF assms [unfolded solve_for_entry_multiple_def]] by simp

text \<open>
  C1. The claim is that each trial runs the model with every tranche amount rescaled to
  \<open>original amount * midpoint / original_multiple\<close>. The code assigns the midpoint to
  \<open>self.entry_multiple\<close> first and then computes \<open>t.amount * scale / (self.entry_multiple /
  original_multiple)\<close>, which divides by \<open>scale\<close> again. For the example deal bought at 8
  times EBITDA, the first trial of the default search (midpoint 10) runs the model with the
  amount 600 it had, where the claim says 750.
\<close>

theorem solver_trial_keeps_amounts:
  "map_sum id (map amount \<circ> debt_tranches)
     (trial_model (example_model\<lparr>entry_multiple := 8\<rparr>) 8 ((5 + 15) / 2)) = Inr [600] \<and>
   map amount (debt_tranches example_model) = [600] \<and>
   amount unitranche * (((5 + 15) / 2) / 8) = 750"
  by (simp add: trial_model_def example_defs)

subsection \<open>Exit multiple and returns\<close>

lemma initial_equity_exit_multiple [simp]:
  "initial_equity (m\<lparr>exit_multiple := e\<rparr>) = initial_equity m"
  by (simp add: model_defs)

lemma run_model_fields:
  assumes "run_model m mi thr = Inr r"
  obtains st where
    "run_years (debt_tranches m) (init_balances (debt_tranches m)) mi thr (start_state m)
       (projections m) = Inr st"
    "projections m \<noteq> []"
    "moic r = (if initial_equity m > 0
               then (ebitda (last (projections m)) * exit_multiple m -
                     dict_values_sum (st_balances st)) / initial_equity m else 0)"
    "irr r = (if moic r > 0 then moic r powr (1 / real (length (projections m))) - 1 else 0)"
  using assms
  by (auto simp: run_model_def start_state_def Let_def split: sum.splits if_splits)

text \<open>
  C9, as claimed, for any two models that differ in the exit multiple only: the larger exit
  multiple gives strictly larger MOIC and strictly larger IRR. It fails where a guard of the
  terminal step sets a return to 0, or the final EBITDA is not positive: with negative
  exit equity the IRR is 0 at both exit multiples; with entry equity not above 0 the MOIC is
  0 at both; with a final-year EBITDA of 0 the MOIC is the same at both.
\<close>

theorem exit_multiple_counterexample:
  "exit_multiple underwater_model < 2 \<and>
   map_sum id irr (run_model underwater_model 10 (1 / 100)) = Inr 0 \<and>
   map_sum id irr (run_model (underwater_model\<lparr>exit_multiple := 2\<rparr>) 10 (1 / 100)) = Inr 0 \<and>
   exit_multiple (example_model\<lparr>entry_multiple := 5\<rparr>) < 12 \<and>
   map_sum id moic (run_model (example_model\<lparr>entry_multiple := 5\<rparr>) 10 (1 / 100)) = Inr 0 \<and>
   map_sum id moic (run_model (example_model\<lparr>entry_multiple := 5, exit_multiple := 12\<rparr>) 10 (1 / 100)) =
     Inr 0 \<and>
   map_sum id moic (run_model (example_model\<lparr>projections := [year_one\<lparr>ebitda := 0\<rparr>]\<rparr>) 10 (1 / 100)) =
     Inr (- (11 / 8)) \<and>
   map_sum id moic (run_model (example_model\<lparr>projections := [year_one\<lparr>ebitda := 0\<rparr>],
     exit_multiple := 12\<rparr>) 10 (1 / 100)) = Inr (- (11 / 8))"
  by (simp add: run_defs example_defs underwater_model_def)

text \<open>
  Without the guards' ties, a larger exit multiple can still lower a return: when the exit
  equity turns from negative to a small positive value, the IRR falls from the guard's 0 to
  a negative value; when the final-year EBITDA is negative, the MOIC falls.
\<close>

lemma exit_multiple_reversals:
  "exit_multiple thin_model < 10 \<and>
   map_sum id irr (run_model thin_model 10 (1 / 100)) = Inr 0 \<and>
   map_sum id irr (run_model (thin_model\<lparr>exit_multiple := 10\<rparr>) 10 (1 / 100)) = Inr (- (71 / 72)) \<and>
   exit_multiple loss_model < 2 \<and>
   map_sum id moic (run_model loss_model 10 (1 / 100)) = Inr (- (151 / 108)) \<and>
   map_sum id moic (run_model (loss_model\<lparr>exit_multiple := 2\<rparr>) 10 (1 / 100)) = Inr (- (307 / 216))"
  by (simp add: run_defs example_defs thin_model_def loss_model_def)

text \<open>
  C9, amended: for two models that differ in the exit multiple only, whose run returns, with
  a final-year EBITDA that is not negative, the model with the strictly larger exit multiple
  has a MOIC that is not smaller, and an IRR that is not smaller when the MOIC at the
  smaller exit multiple is above 0.
\<close>

theorem exit_multiple_weakly_monotone:
  assumes run: "run_model m max_iterations threshold = Inr r1"
    and lt: "exit_multiple m < e2"
    and final: "0 \<le> ebitda (last (projections m))"
  shows "\<exists>r2. run_model (m\<lparr>exit_multiple := e2\<rparr>) max_iterations threshold = Inr r2 \<and>
              moic r1 \<le> moic r2 \<and> (0 < moic r1 \<longrightarrow> irr r1 \<le> irr r2)"
proof -
  from run obtain st where st:
    "run_years (debt_tranches m) (init_balances (debt_tranches m)) max_iterations threshold
       (start_state m) (projections m) = Inr st"
    and ne: "projections m \<noteq> []"
    and m1: "moic r1 = (if initial_equity m > 0
               then (ebitda (last (projections m)) * exit_multiple m -
                     dict_values_sum (st_balances st)) / initial_equity m else 0)"
    and i1: "irr r1 = (if moic r1 > 0 then moic r1 powr (1 / real (length (projections m))) - 1 else 0)"
    by (rule run_model_fields)
  let ?m2 = "m\<lparr>exit_multiple := e2\<rparr>"
  from st ne obtain r2 where run2: "run_model ?m2 max_iterations threshold = Inr r2"
    by (auto simp: run_model_def start_state_def Let_def)
  then obtain st2 where st2:
    "run_years (debt_tranches ?m2) (init_balances (debt_tranches ?m2)) max_iterations threshold
       (start_state ?m2) (projections ?m2) = Inr st2"
    and m2: "moic r2 = (if initial_equity ?m2 > 0
               then (ebitda (last (projections ?m2)) * exit_multiple ?m2 -
                     dict_values_sum (st_balances st2)) / initial_equity ?m2 else 0)"
    and i2: "irr r2 = (if moic r2 > 0 then moic r2 powr (1 / real (length (projections ?m2))) - 1 else 0)"
    by (rule run_model_fields)
  from st st2 have same: "st2 = st" by (simp add: start_state_def)
  have "ebitda (last (projections m)) * exit_multiple m \<le> ebitda (last (projections m)) * e2"
    using lt final by (simp add: mult_left_mono)
  then have moic_le: "moic r1 \<le> moic r2"
    by (simp add: m1 m2 same divide_right_mono)
  have "irr r1 \<le> irr r2" if pos: "0 < moic r1"
  proof -
    have "0 \<le> 1 / real (length (projections m))" by simp
    with pos moic_le
    have "moic r1 powr (1 / real (length (projections m))) \<le>
          moic r2 powr (1 / real (length (projections m)))"
      by (intro powr_mono2) simp_all
    with pos moic_le show ?thesis by (simp add: i1 i2)
  qed
  with run2 moic_le show ?thesis by blast
qed

theorem exit_multiple_weakly_monotone_witness:
  "\<exists>r1 r2. run_model example_model 10 (1 / 100) = Inr r1 \<and>
     run_model (example_model\<lparr>exit_multiple := 12\<rparr>) 10 (1 / 100) = Inr r2 \<and>
     exit_multiple example_model < 12 \<and> 0 \<le> ebitda (last (projections example_model)) \<and>
     0 < moic r1 \<and> moic r1 \<le> moic r2 \<and> irr r1 \<le> irr r2"
proof -
  have h: "exit_multiple example_model < 12" "0 \<le> ebitda (last (projections example_model))"
    by (simp_all add: example_defs)
  from exit_multiple_weakly_monotone [OF run_example_model h] h run_example_model
  show ?thesis by auto
qed

text \<open>
  In exact arithmetic the increase is strict when, moreover, the final-year EBITDA and the
  entry equity are above 0. That is not a property of the doubles the Python computes: two
  exit multiples that are close enough give the same rounded MOIC or IRR.
\<close>

lemma exit_multiple_strict_exact:
  assumes run: "run_model m max_iterations threshold = Inr r1"
    and lt: "exit_multiple m < e2"
    and final: "0 < ebitda (last (projections m))"
    and equity: "0 < initial_equity m"
  shows "\<exists>r2. run_model (m\<lparr>exit_multiple := e2\<rparr>) max_iterations threshold = Inr r2 \<and>
              moic r1 < moic r2 \<and> (0 < moic r1 \<longrightarrow> irr r1 < irr r2)"
proof -
  from run obtain st where st:
    "run_years (debt_tranches m) (init_balances (debt_tranches m)) max_iterations threshold
       (start_state m) (projections m) = Inr st"
    and ne: "projections m \<noteq> []"
    and m1: "moic r1 = (if initial_equity m > 0
               then (ebitda (last (projections m)) * exit_multiple m -
                     dict_values_sum (st_balances st)) / initial_equity m else 0)"
    and i1: "irr r1 = (if moic r1 > 0 then moic r1 powr (1 / real (length (projections m))) - 1 else 0)"
    by (rule run_model_fields)
  let ?m2 = "m\<lparr>exit_multiple := e2\<rparr>"
  from st ne obtain r2 where run2: "run_model ?m2 max_iterations threshold = Inr r2"
    by (auto simp: run_model_def start_state_def Let_def)
  then obtain st2 where st2:
    "run_years (debt_tranches ?m2) (init_balances (debt_tranches ?m2)) max_iterations threshold
       (start_state ?m2) (projections ?m2) = Inr st2"
    and m2: "moic r2 = (if initial_equity ?m2 > 0
               then (ebitda (last (projections ?m2)) * exit_multiple ?m2 -
                     dict_values_sum (st_balances st2)) / initial_equity ?m2 else 0)"
    and i2: "irr r2 = (if moic r2 > 0 then moic r2 powr (1 / real (length (projections ?m2))) - 1 else 0)"
    by (rule run_model_fields)
  from st st2 have same: "st2 = st" by (simp add: start_state_def)
  have "ebitda (last (projections m)) * exit_multiple m < ebitda (last (projections m)) * e2"
    using lt final by simp
  then have moic_lt: "moic r1 < moic r2"
    using equity by (simp add: m1 m2 same divide_strict_right_mono)
  have "irr r1 < irr r2" if pos: "0 < moic r1"
  proof -
    from ne have "0 < 1 / real (length (projections m))" by simp
    with pos moic_lt
    have "moic r1 powr (1 / real (length (projections m))) <
          moic r2 powr (1 / real (length (projections m)))"
      by (intro powr_less_mono2) simp_all
    with pos moic_lt show ?thesis by (simp add: i1 i2)
  qed
  with run2 moic_lt show ?thesis by blast
qed

end
